theory Spec2Isabelle
  imports Main "HOL-Library.AList"
begin

section \<open>The job client of notebooks/utils.py\<close>

text \<open>
  The module drives a remote job-submission REST API: \<open>launch_job\<close> uploads inputs,
  \<open>check_status\<close> polls a status URL, \<open>check_job\<close> reads the output descriptors and
  \<open>retrieve_data\<close> downloads them. Every function is an HTTP call or a file operation,
  so the embedding passes an explicit world (the requests issued so far, the sleeps made
  so far, the local file system) through each function, and takes the remote server as a
  parameter. Exceptions are values of the type \<open>error\<close>; a function that can raise
  returns \<open>error + 'a\<close> next to the world it leaves behind.
\<close>

subsection \<open>Python values\<close>

text \<open>
  The values that flow through the module are JSON documents and keyword arguments:
  \<open>None\<close>, booleans, integers, strings, lists and dictionaries with string keys.
  A dictionary is an association list with distinct keys, in insertion order.
  Floating point numbers are not represented. A character is a code point below 256.
\<close>

datatype pyval =
    PyNone
  | PyBool bool
  | PyInt int
  | PyStr string
  | PyList "pyval list"
  | PyDict "(string \<times> pyval) list"

datatype error =
    KeyError
  | TypeError
  | UnboundLocalError
  | FileNotFoundError
  | IsADirectoryError
  | OSError
  | JSONDecodeError
  | RequestException

subsection \<open>The world: network, clock and file system\<close>

datatype http_method = GET | POST

text \<open>
  A request as \<open>requests.get\<close> and \<open>requests.post\<close> send it. The form fields are the
  \<open>data\<close> dictionary; each file attachment is a field name with the pair
  (file name, bytes) that \<open>files\<close> holds for it.
\<close>

record request =
  req_method :: http_method
  req_url :: string
  req_data :: "(string \<times> string) list"
  req_files :: "(string \<times> string \<times> string) list"
  allow_redirects :: bool

text \<open>
  What the server answers: the status code, the result of \<open>json.loads\<close> on the text
  of the body (\<open>None\<close> when the text is not JSON) and the raw bytes of the body.
\<close>

record reply =
  status_code :: int
  body_json :: "pyval option"
  content :: string

text \<open>
  The server answers the \<open>n\<close>-th request of the session; \<open>None\<close> stands for any failure
  of the transport, on which \<open>requests\<close> raises.
\<close>

type_synonym server = "nat \<Rightarrow> request \<Rightarrow> reply option"

datatype node = File string | Dir

record world =
  sent :: "request list"
  slept :: "int list"
  fs :: "string \<Rightarrow> node option"

definition sleep :: "int \<Rightarrow> world \<Rightarrow> world" where
  "sleep s w = w\<lparr>slept := slept w @ [s]\<rparr>"

definition send :: "server \<Rightarrow> request \<Rightarrow> world \<Rightarrow> (error + reply) \<times> world" where
  "send srv rq w =
     (case srv (length (sent w)) rq of
        None \<Rightarrow> (Inl RequestException, w\<lparr>sent := sent w @ [rq]\<rparr>)
      | Some r \<Rightarrow> (Inr r, w\<lparr>sent := sent w @ [rq]\<rparr>))"

definition get_request :: "string \<Rightarrow> request" where
  "get_request u =
     \<lparr>req_method = GET, req_url = u, req_data = [], req_files = [], allow_redirects = True\<rparr>"

definition requests_get :: "server \<Rightarrow> string \<Rightarrow> world \<Rightarrow> (error + reply) \<times> world" where
  "requests_get srv u w = send srv (get_request u) w"

subsection \<open>The status poller\<close>

text \<open>
  Lines 24 to 26: three independent \<open>if\<close> statements assign the local \<open>slp\<close>, which
  keeps its previous value (unbound on the first iteration) when none of them fires.
\<close>

definition assign_slp :: "int \<Rightarrow> int option \<Rightarrow> int option" where
  "assign_slp counter slp =
     (let slp1 = (if counter < 10 then Some 1 else slp);
          slp2 = (if counter \<ge> 10 \<and> counter < 60 then Some 10 else slp1);
          slp3 = (if counter \<ge> 60 then Some 60 else slp2)
      in slp3)"

text \<open>
  The \<open>while True\<close> loop of \<open>check_status\<close>. It has no bound, so the result is an option:
  \<open>None\<close> is the run that never returns.
\<close>

partial_function (option) check_status_loop ::
  "server \<Rightarrow> string \<Rightarrow> int \<Rightarrow> int \<Rightarrow> int \<Rightarrow> int option \<Rightarrow> world
    \<Rightarrow> ((error + int) \<times> world) option" where
  "check_status_loop srv u ok err counter slp w =
     (case assign_slp counter slp of
        None \<Rightarrow> Some (Inl UnboundLocalError, w)
      | Some s \<Rightarrow>
          (let counter' = counter + s;
               w1 = sleep s w
           in case requests_get srv u w1 of
                (Inl e, w2) \<Rightarrow> Some (Inl e, w2)
              | (Inr r, w2) \<Rightarrow>
                  if status_code r = ok \<or> status_code r = err
                  then Some (Inr counter', w2)
                  else check_status_loop srv u ok err counter' (Some s) w2))"

declare check_status_loop.simps [code]

definition check_status ::
  "server \<Rightarrow> string \<Rightarrow> int \<Rightarrow> int \<Rightarrow> world \<Rightarrow> ((error + int) \<times> world) option" where
  "check_status srv u ok err w = check_status_loop srv u ok err 0 None w"


text \<open>
  The values of \<open>counter\<close> and \<open>slp\<close> after \<open>n\<close> passes through lines 24 to 27,
  from the initial state of line 22. No response is involved, so every run of the
  poller walks through a prefix of this sequence.
\<close>

fun loop_state :: "nat \<Rightarrow> int \<times> int option" where
  "loop_state 0 = (0, None)"
| "loop_state (Suc n) =
     (case loop_state n of
        (counter, slp) \<Rightarrow>
          (case assign_slp counter slp of
             None \<Rightarrow> (counter, slp)
           | Some s \<Rightarrow> (counter + s, Some s)))"

definition counter_at :: "nat \<Rightarrow> int" where
  "counter_at n = fst (loop_state n)"

text \<open>
  The answer that the \<open>i\<close>-th poll of a run started in world \<open>w\<close> gets.
\<close>

definition poll :: "server \<Rightarrow> string \<Rightarrow> world \<Rightarrow> nat \<Rightarrow> reply option" where
  "poll srv u w i = srv (length (sent w) + i) (get_request u)"

text \<open>
  The sleep schedule as the specification words it: 1 second while the counter is below
  10, 10 seconds from 10 to below 60, 60 seconds from 60 on.
\<close>

definition spec_tier :: "int \<Rightarrow> int" where
  "spec_tier c = (if c < 10 then 1 else if c < 60 then 10 else 60)"

subsection \<open>Files\<close>

definition is_file :: "world \<Rightarrow> string \<Rightarrow> bool" where
  "is_file w p = (case fs w p of Some (File b) \<Rightarrow> True | _ \<Rightarrow> False)"

text \<open>\<open>open(p, 'rb')\<close>, read when the request is sent: the bytes of the file.\<close>

definition open_rb :: "world \<Rightarrow> string \<Rightarrow> error + string" where
  "open_rb w p =
     (case fs w p of
        None \<Rightarrow> Inl FileNotFoundError
      | Some Dir \<Rightarrow> Inl IsADirectoryError
      | Some (File b) \<Rightarrow> Inr b)"

text \<open>\<open>open(p, 'wb')\<close>, \<open>write\<close> and \<open>close\<close>: the file is created or replaced.\<close>

definition write_file :: "string \<Rightarrow> string \<Rightarrow> world \<Rightarrow> error + world" where
  "write_file p b w =
     (case fs w p of
        Some Dir \<Rightarrow> Inl IsADirectoryError
      | _ \<Rightarrow> Inr (w\<lparr>fs := (fs w)(p \<mapsto> File b)\<rparr>))"

subsection \<open>Operations on Python values\<close>

definition startswith :: "string \<Rightarrow> string \<Rightarrow> bool" where
  "startswith s p = (take (length p) s = p)"

text \<open>\<open>not v\<close> is \<open>\<not> truthy v\<close>.\<close>

fun truthy :: "pyval \<Rightarrow> bool" where
  "truthy PyNone = False"
| "truthy (PyBool b) = b"
| "truthy (PyInt n) = (n \<noteq> 0)"
| "truthy (PyStr s) = (s \<noteq> [])"
| "truthy (PyList xs) = (xs \<noteq> [])"
| "truthy (PyDict kvs) = (kvs \<noteq> [])"

text \<open>\<open>v[key]\<close> for a string key: only a dictionary can be subscripted with a string.\<close>

fun py_getitem :: "pyval \<Rightarrow> string \<Rightarrow> error + pyval" where
  "py_getitem (PyDict kvs) key =
     (case map_of kvs key of None \<Rightarrow> Inl KeyError | Some v \<Rightarrow> Inr v)"
| "py_getitem v key = Inl TypeError"

text \<open>
  \<open>for x in v\<close>: a list yields its elements, a dictionary its keys, a string its
  characters; nothing else of these values is iterable.
\<close>

fun py_iter :: "pyval \<Rightarrow> error + pyval list" where
  "py_iter (PyList xs) = Inr xs"
| "py_iter (PyDict kvs) = Inr (map (\<lambda>kv. PyStr (fst kv)) kvs)"
| "py_iter (PyStr s) = Inr (map (\<lambda>c. PyStr [c]) s)"
| "py_iter v = Inl TypeError"

subsection \<open>\<open>json.dumps\<close> and \<open>encode_config\<close>\<close>

text \<open>
  \<open>json.dumps\<close> with its default arguments: separators \<open>", "\<close> and \<open>": "\<close>, and
  \<open>ensure_ascii\<close>, under which every character outside the printable ASCII range, the
  double quote and the backslash are escaped.
\<close>

definition hex_digit :: "nat \<Rightarrow> char" where
  "hex_digit n = ''0123456789abcdef'' ! (n mod 16)"

definition escape_char :: "char \<Rightarrow> string" where
  "escape_char c =
     (let n = (of_char c :: nat) in
      if n = 0x22 then [CHR 0x5C, CHR 0x22]
      else if n = 0x5C then [CHR 0x5C, CHR 0x5C]
      else if n = 0x0A then [CHR 0x5C, CHR ''n'']
      else if n = 0x0D then [CHR 0x5C, CHR ''r'']
      else if n = 0x09 then [CHR 0x5C, CHR ''t'']
      else if n = 0x08 then [CHR 0x5C, CHR ''b'']
      else if n = 0x0C then [CHR 0x5C, CHR ''f'']
      else if 0x20 \<le> n \<and> n \<le> 0x7E then [c]
      else [CHR 0x5C, CHR ''u'', CHR ''0'', CHR ''0'', hex_digit (n div 16), hex_digit n])"

definition quote :: "string \<Rightarrow> string" where
  "quote s = [CHR 0x22] @ concat (map escape_char s) @ [CHR 0x22]"

fun show_nat :: "nat \<Rightarrow> string" where
  "show_nat n =
     (if n < 10 then [''0123456789'' ! n]
      else show_nat (n div 10) @ [''0123456789'' ! (n mod 10)])"

declare show_nat.simps [simp del]

definition show_int :: "int \<Rightarrow> string" where
  "show_int i = (if i < 0 then ''-'' @ show_nat (nat (- i)) else show_nat (nat i))"

fun join :: "string \<Rightarrow> string list \<Rightarrow> string" where
  "join sep [] = []"
| "join sep [x] = x"
| "join sep (x # y # ys) = x @ sep @ join sep (y # ys)"

fun dumps :: "pyval \<Rightarrow> string" where
  "dumps PyNone = ''null''"
| "dumps (PyBool b) = (if b then ''true'' else ''false'')"
| "dumps (PyInt i) = show_int i"
| "dumps (PyStr s) = quote s"
| "dumps (PyList xs) = ''['' @ join '', '' (map dumps xs) @ '']''"
| "dumps (PyDict kvs) =
     ''{'' @ join '', '' (map (\<lambda>kv. quote (fst kv) @ '': '' @ dumps (snd kv)) kvs) @ ''}''"

text \<open>
  Lines 40 to 43. The text \<open>json.dumps\<close> returns is ASCII, so its UTF-8 encoding is the
  same sequence of bytes, which the \<open>BytesIO\<close> object holds.
\<close>

definition encode_config :: "pyval \<Rightarrow> string" where
  "encode_config data = (let jsonData = dumps data; binaryData = jsonData in binaryData)"


subsection \<open>The transport wrapper\<close>

record response =
  status :: int
  json :: pyval

definition to_response :: "reply \<Rightarrow> error + response" where
  "to_response r =
     (case body_json r of
        None \<Rightarrow> Inl JSONDecodeError
      | Some j \<Rightarrow> Inr \<lparr>status = status_code r, json = j\<rparr>)"

definition get_data :: "server \<Rightarrow> string \<Rightarrow> world \<Rightarrow> (error + response) \<times> world" where
  "get_data srv u w =
     (case requests_get srv u w of
        (Inl e, w') \<Rightarrow> (Inl e, w')
      | (Inr r, w') \<Rightarrow> (to_response r, w'))"

definition post_request ::
  "string \<Rightarrow> (string \<times> string) list \<Rightarrow> (string \<times> string \<times> string) list \<Rightarrow> request" where
  "post_request u d f =
     \<lparr>req_method = POST, req_url = u, req_data = d, req_files = f, allow_redirects = True\<rparr>"

definition post_data ::
  "server \<Rightarrow> string \<Rightarrow> (string \<times> string) list \<Rightarrow> (string \<times> string \<times> string) list
    \<Rightarrow> world \<Rightarrow> (error + response) \<times> world" where
  "post_data srv u d f w =
     (case send srv (post_request u d f) w of
        (Inl e, w') \<Rightarrow> (Inl e, w')
      | (Inr r, w') \<Rightarrow> (to_response r, w'))"

subsection \<open>The job launcher\<close>

text \<open>
  One pass of the loop of lines 49 to 60 over a keyword argument. The two tests on the
  type of the value exclude each other, so they are the branches of one case
  distinction; a value that is neither a string nor a dictionary changes nothing.
  Assigning to a key of a dictionary replaces the value in place or appends the key.
\<close>

fun launch_arg ::
  "world \<Rightarrow> string \<times> pyval
    \<Rightarrow> (string \<times> string) list \<times> (string \<times> string \<times> string) list
    \<Rightarrow> error + (string \<times> string) list \<times> (string \<times> string \<times> string) list" where
  "launch_arg w (key, PyStr v) (data, files) =
     (if startswith key ''input'' then
        (case open_rb w v of
           Inl e \<Rightarrow> Inl e
         | Inr b \<Rightarrow> Inr (data, AList.update key (v, b) files))
      else if startswith key ''output'' then Inr (AList.update key v data, files)
      else if is_file w v then
        (case open_rb w v of
           Inl e \<Rightarrow> Inl e
         | Inr b \<Rightarrow> Inr (data, AList.update key (v, b) files))
      else Inr (data, files))"
| "launch_arg w (key, PyDict d) (data, files) =
     Inr (data, AList.update ''config'' (''prop.json'', encode_config (PyDict d)) files)"
| "launch_arg w (key, v) (data, files) = Inr (data, files)"

fun fill_request ::
  "world \<Rightarrow> (string \<times> pyval) list
    \<Rightarrow> (string \<times> string) list \<times> (string \<times> string \<times> string) list
    \<Rightarrow> error + (string \<times> string) list \<times> (string \<times> string \<times> string) list" where
  "fill_request w [] acc = Inr acc"
| "fill_request w (kv # kwargs) acc =
     (case launch_arg w kv acc of
        Inl e \<Rightarrow> Inl e
      | Inr acc' \<Rightarrow> fill_request w kwargs acc')"

text \<open>
  Lines 45 to 68. The keyword arguments are a dictionary: a list of pairs with distinct
  names, in the order of the call. A call whose response is not a 303 falls off the end
  of the function and returns \<open>None\<close>. The \<open>print\<close> of line 64 writes the parsed body
  to the standard output only and is left out.
\<close>

definition launch_job ::
  "server \<Rightarrow> string \<Rightarrow> (string \<times> pyval) list \<Rightarrow> world \<Rightarrow> (error + pyval) \<times> world" where
  "launch_job srv u kwargs w =
     (case fill_request w kwargs ([], []) of
        Inl e \<Rightarrow> (Inl e, w)
      | Inr (data, files) \<Rightarrow>
          (case post_data srv u data files w of
             (Inl e, w') \<Rightarrow> (Inl e, w')
           | (Inr response, w') \<Rightarrow>
               if status response = 303
               then (py_getitem (json response) ''token'', w')
               else (Inr PyNone, w')))"

subsection \<open>Reading the job's output descriptors\<close>

text \<open>Lines 79 to 82: the loop that builds \<open>out_files\<close>.\<close>

fun collect_items :: "pyval list \<Rightarrow> error + pyval list" where
  "collect_items [] = Inr []"
| "collect_items (outf # rest) =
     (case py_getitem outf ''id'' of
        Inl e \<Rightarrow> Inl e
      | Inr i \<Rightarrow>
          (case py_getitem outf ''name'' of
             Inl e \<Rightarrow> Inl e
           | Inr n \<Rightarrow>
               (case collect_items rest of
                  Inl e \<Rightarrow> Inl e
                | Inr items \<Rightarrow> Inr (PyDict [(''id'', i), (''name'', n)] # items))))"

definition out_files_of :: "pyval \<Rightarrow> error + pyval list" where
  "out_files_of j =
     (case py_getitem j ''output_files'' of
        Inl e \<Rightarrow> Inl e
      | Inr v \<Rightarrow> (case py_iter v of Inl e \<Rightarrow> Inl e | Inr xs \<Rightarrow> collect_items xs))"

text \<open>
  Lines 70 to 91. The token is whatever \<open>launch_job\<close> returned; concatenating anything
  but a string to the URL raises. The result is \<open>None\<close> when the poller never returns.
  The \<open>print\<close> calls of lines 85 to 87 write to the standard output only and are left
  out, so the counter that the poller returns is not used.
\<close>

definition check_job ::
  "server \<Rightarrow> pyval \<Rightarrow> string \<Rightarrow> world \<Rightarrow> ((error + pyval) \<times> world) option" where
  "check_job srv token apiURL w =
     (case token of
        PyStr t \<Rightarrow>
          (let u = apiURL @ ''retrieve/status/'' @ t in
           case check_status srv u 200 500 w of
             None \<Rightarrow> None
           | Some (Inl e, w1) \<Rightarrow> Some (Inl e, w1)
           | Some (Inr counter, w1) \<Rightarrow>
               (case get_data srv u w1 of
                  (Inl e, w2) \<Rightarrow> Some (Inl e, w2)
                | (Inr response, w2) \<Rightarrow>
                    if status response = 200
                    then (case out_files_of (json response) of
                            Inl e \<Rightarrow> Some (Inl e, w2)
                          | Inr out_files \<Rightarrow> Some (Inr (PyList out_files), w2))
                    else Some (Inr PyNone, w2)))
      | _ \<Rightarrow> Some (Inl TypeError, w))"

subsection \<open>The result retriever\<close>

text \<open>
  Lines 34 to 38. A file name that is an integer or a boolean denotes a file
  descriptor, none of which the file system of the model has open.
\<close>

definition get_file :: "server \<Rightarrow> string \<Rightarrow> pyval \<Rightarrow> world \<Rightarrow> (error + unit) \<times> world" where
  "get_file srv u filename w =
     (case requests_get srv u w of
        (Inl e, w1) \<Rightarrow> (Inl e, w1)
      | (Inr r, w1) \<Rightarrow>
          (case filename of
             PyStr name \<Rightarrow>
               (case write_file name (content r) w1 of
                  Inl e \<Rightarrow> (Inl e, w1)
                | Inr w2 \<Rightarrow> (Inr (), w2))
           | PyInt n \<Rightarrow> (Inl OSError, w1)
           | PyBool b \<Rightarrow> (Inl OSError, w1)
           | _ \<Rightarrow> (Inl TypeError, w1)))"

text \<open>
  The loop of lines 96 and 97. The arguments of \<open>get_file\<close> are evaluated from left to
  right: the id is read and concatenated to the URL before the name is read.
\<close>

fun download_all :: "server \<Rightarrow> string \<Rightarrow> pyval list \<Rightarrow> world \<Rightarrow> (error + pyval) \<times> world" where
  "download_all srv apiURL [] w = (Inr PyNone, w)"
| "download_all srv apiURL (outf # rest) w =
     (case py_getitem outf ''id'' of
        Inl e \<Rightarrow> (Inl e, w)
      | Inr (PyStr i) \<Rightarrow>
          (case py_getitem outf ''name'' of
             Inl e \<Rightarrow> (Inl e, w)
           | Inr n \<Rightarrow>
               (case get_file srv (apiURL @ ''retrieve/data/'' @ i) n w of
                  (Inl e, w') \<Rightarrow> (Inl e, w')
                | (Inr u, w') \<Rightarrow> download_all srv apiURL rest w'))
      | Inr v \<Rightarrow> (Inl TypeError, w))"

definition retrieve_data :: "server \<Rightarrow> pyval \<Rightarrow> string \<Rightarrow> world \<Rightarrow> (error + pyval) \<times> world" where
  "retrieve_data srv out_files apiURL w =
     (if \<not> truthy out_files then (Inr (PyStr ''No files provided''), w)
      else (case py_iter out_files of
              Inl e \<Rightarrow> (Inl e, w)
            | Inr xs \<Rightarrow> download_all srv apiURL xs w))"

subsection \<open>Mock servers and worlds\<close>

definition mock_reply :: "int \<Rightarrow> pyval \<Rightarrow> string \<Rightarrow> reply" where
  "mock_reply c j b = \<lparr>status_code = c, body_json = Some j, content = b\<rparr>"

text \<open>A server that answers the requests of the session from a list, then fails.\<close>

definition mock_server :: "reply list \<Rightarrow> server" where
  "mock_server rs n rq = (if n < length rs then Some (rs ! n) else None)"

text \<open>A server that answers every request with the same status code.\<close>

definition mock_always :: "int \<Rightarrow> server" where
  "mock_always c n rq = Some (mock_reply c (PyDict []) [])"

definition world0 :: world where
  "world0 = \<lparr>sent = [], slept = [], fs = (\<lambda>p. None)\<rparr>"

text \<open>A world whose file system holds the given regular files and nothing else.\<close>

definition world_with :: "(string \<times> string) list \<Rightarrow> world" where
  "world_with files =
     \<lparr>sent = [], slept = [], fs = map_of (map (\<lambda>pb. (fst pb, File (snd pb))) files)\<rparr>"

text \<open>The descriptor that \<open>check_job\<close> builds for an output file.\<close>

definition descriptor :: "string \<times> string \<Rightarrow> pyval" where
  "descriptor p = PyDict [(''id'', PyStr (fst p)), (''name'', PyStr (snd p))]"


subsection \<open>Notions used in the statements and proofs about the poller\<close>

text \<open>
  The first \<open>n\<close> sleeps that the specification's tiers give from a counter \<open>c\<close> on, the
  world after polling with a given list of sleeps, and the polls at which the loop
  ends: a poll that fails, or one answered with a terminal code.
\<close>

fun spec_schedule :: "nat \<Rightarrow> int \<Rightarrow> int list" where
  "spec_schedule 0 c = []"
| "spec_schedule (Suc n) c = spec_tier c # spec_schedule n (c + spec_tier c)"

definition polled :: "string \<Rightarrow> int list \<Rightarrow> world \<Rightarrow> world" where
  "polled u ss w = w\<lparr>slept := slept w @ ss, sent := sent w @ replicate (length ss) (get_request u)\<rparr>"

definition stops :: "server \<Rightarrow> string \<Rightarrow> int \<Rightarrow> int \<Rightarrow> world \<Rightarrow> nat \<Rightarrow> bool" where
  "stops srv u ok err w i =
     (case poll srv u w i of None \<Rightarrow> True
      | Some r \<Rightarrow> status_code r = ok \<or> status_code r = err)"

section \<open>The status poller: schedule, elapsed time and termination\<close>

lemma assign_slp_tier: "assign_slp c s = Some (spec_tier c)"
  by (simp add: assign_slp_def spec_tier_def)

lemma poll_polled: "poll srv u (polled u ss w) i = poll srv u w (length ss + i)"
  by (simp add: poll_def polled_def add.assoc)

lemma polled_append: "polled u ss' (polled u ss w) = polled u (ss @ ss') w"
  by (simp add: polled_def replicate_add)

lemma loop_unfold:
  "check_status_loop srv u ok err c slp w =
     (case poll srv u w 0 of
        None \<Rightarrow> Some (Inl RequestException, polled u [spec_tier c] w)
      | Some r \<Rightarrow>
          if status_code r = ok \<or> status_code r = err
          then Some (Inr (c + spec_tier c), polled u [spec_tier c] w)
          else check_status_loop srv u ok err (c + spec_tier c) (Some (spec_tier c))
                 (polled u [spec_tier c] w))"
  by (subst check_status_loop.simps)
     (simp add: assign_slp_tier requests_get_def send_def sleep_def poll_def polled_def
           split: option.split)

lemma length_spec_schedule: "length (spec_schedule n c) = n"
  by (induction n arbitrary: c) simp_all

lemma loop_returns:
  assumes "\<forall>j<i. \<exists>r. poll srv u w j = Some r \<and> status_code r \<noteq> ok \<and> status_code r \<noteq> err"
    and "poll srv u w i = Some r" and "status_code r = ok \<or> status_code r = err"
  shows "check_status_loop srv u ok err c slp w =
           Some (Inr (c + sum_list (spec_schedule (Suc i) c)), polled u (spec_schedule (Suc i) c) w)"
  using assms
proof (induction i arbitrary: c slp w)
  case 0
  then show ?case by (subst loop_unfold) simp
next
  case (Suc i)
  let ?s = "spec_tier c"
  let ?w = "polled u [?s] w"
  from Suc.prems(1) obtain r0 where r0: "poll srv u w 0 = Some r0"
    "status_code r0 \<noteq> ok" "status_code r0 \<noteq> err" by auto
  have "\<forall>j<i. \<exists>r. poll srv u ?w j = Some r \<and> status_code r \<noteq> ok \<and> status_code r \<noteq> err"
    using Suc.prems(1) by (simp add: poll_polled)
  moreover have "poll srv u ?w i = Some r"
    using Suc.prems(2) by (simp add: poll_polled)
  ultimately have "check_status_loop srv u ok err (c + ?s) (Some ?s) ?w =
      Some (Inr (c + ?s + sum_list (spec_schedule (Suc i) (c + ?s))),
            polled u (spec_schedule (Suc i) (c + ?s)) ?w)"
    using Suc.prems(3) by (rule Suc.IH)
  then show ?case
    using r0 by (subst loop_unfold) (simp add: polled_append add.assoc)
qed

lemma loop_raises:
  assumes "\<forall>j<i. \<exists>r. poll srv u w j = Some r \<and> status_code r \<noteq> ok \<and> status_code r \<noteq> err"
    and "poll srv u w i = None"
  shows "check_status_loop srv u ok err c slp w =
           Some (Inl RequestException, polled u (spec_schedule (Suc i) c) w)"
  using assms
proof (induction i arbitrary: c slp w)
  case 0
  then show ?case by (subst loop_unfold) simp
next
  case (Suc i)
  let ?s = "spec_tier c"
  let ?w = "polled u [?s] w"
  from Suc.prems(1) obtain r0 where r0: "poll srv u w 0 = Some r0"
    "status_code r0 \<noteq> ok" "status_code r0 \<noteq> err" by auto
  have "\<forall>j<i. \<exists>r. poll srv u ?w j = Some r \<and> status_code r \<noteq> ok \<and> status_code r \<noteq> err"
    using Suc.prems(1) by (simp add: poll_polled)
  moreover have "poll srv u ?w i = None"
    using Suc.prems(2) by (simp add: poll_polled)
  ultimately have "check_status_loop srv u ok err (c + ?s) (Some ?s) ?w =
      Some (Inl RequestException, polled u (spec_schedule (Suc i) (c + ?s)) ?w)"
    by (rule Suc.IH)
  then show ?case
    using r0 by (subst loop_unfold) (simp add: polled_append)
qed

lemma loop_stops:
  assumes "check_status_loop srv u ok err c slp w = Some y"
  shows "\<exists>i. stops srv u ok err w i"
proof (rule check_status_loop.raw_induct
    [where P = "\<lambda>srv u ok err c slp w y. \<exists>i. stops srv u ok err w i", OF _ assms])
  fix loop :: "server \<Rightarrow> string \<Rightarrow> int \<Rightarrow> int \<Rightarrow> int \<Rightarrow> int option \<Rightarrow> world
    \<Rightarrow> ((error + int) \<times> world) option"
  fix srv u ok err c slp w y
  assume IH: "\<And>srv u ok err c slp w y. loop srv u ok err c slp w = Some y
      \<Longrightarrow> \<exists>i. stops srv u ok err w i"
  assume body: "(case assign_slp c slp of None \<Rightarrow> Some (Inl UnboundLocalError, w)
      | Some s \<Rightarrow>
          let counter' = c + s; w1 = sleep s w
          in case requests_get srv u w1 of (Inl e, w2) \<Rightarrow> Some (Inl e, w2)
             | (Inr r, w2) \<Rightarrow>
                 if status_code r = ok \<or> status_code r = err
                 then Some (Inr counter', w2)
                 else loop srv u ok err counter' (Some s) w2) = Some y"
  show "\<exists>i. stops srv u ok err w i"
  proof (cases "stops srv u ok err w 0")
    case True
    then show ?thesis by blast
  next
    case False
    then obtain r where r: "poll srv u w 0 = Some r" "status_code r \<noteq> ok" "status_code r \<noteq> err"
      by (auto simp: stops_def split: option.splits)
    with body have "loop srv u ok err (c + spec_tier c) (Some (spec_tier c))
                 (polled u [spec_tier c] w) = Some y"
      by (simp add: assign_slp_tier requests_get_def send_def sleep_def poll_def polled_def)
    from IH [OF this] obtain i where "stops srv u ok err (polled u [spec_tier c] w) i"
      by blast
    then have "stops srv u ok err w (Suc i)"
      by (simp add: stops_def poll_polled)
    then show ?thesis by blast
  qed
qed

lemma first_stop:
  assumes "stops srv u ok err w i"
  shows "\<exists>k. stops srv u ok err w k \<and>
    (\<forall>j<k. \<exists>r. poll srv u w j = Some r \<and> status_code r \<noteq> ok \<and> status_code r \<noteq> err)"
proof -
  from assms obtain k where k: "stops srv u ok err w k" "\<forall>j<k. \<not> stops srv u ok err w j"
    using exists_least_iff [of "stops srv u ok err w"] by blast
  have "\<exists>r. poll srv u w j = Some r \<and> status_code r \<noteq> ok \<and> status_code r \<noteq> err" if "j < k" for j
    using k(2) that by (auto simp: stops_def split: option.splits)
  with k(1) show ?thesis by blast
qed

lemma spec_schedule_nth:
  "i < n \<Longrightarrow> spec_schedule n c ! i = spec_tier (c + sum_list (take i (spec_schedule n c)))"
proof (induction n arbitrary: c i)
  case 0
  then show ?case by simp
next
  case (Suc n)
  show ?case
  proof (cases i)
    case 0
    then show ?thesis by simp
  next
    case (Suc k)
    with Suc.prems have "k < n" by simp
    from Suc.IH [OF this, of "c + spec_tier c"] Suc show ?thesis
      by (simp add: add.assoc)
  qed
qed

lemma check_status_cases:
  obtains (diverges) "check_status srv u ok err w = None"
      "\<forall>i. \<exists>r. poll srv u w i = Some r \<and> status_code r \<noteq> ok \<and> status_code r \<noteq> err"
  | (raises) k where
      "\<forall>j<k. \<exists>r. poll srv u w j = Some r \<and> status_code r \<noteq> ok \<and> status_code r \<noteq> err"
      "poll srv u w k = None"
      "check_status srv u ok err w =
         Some (Inl RequestException, polled u (spec_schedule (Suc k) 0) w)"
  | (returns) k r where
      "\<forall>j<k. \<exists>r. poll srv u w j = Some r \<and> status_code r \<noteq> ok \<and> status_code r \<noteq> err"
      "poll srv u w k = Some r" "status_code r = ok \<or> status_code r = err"
      "check_status srv u ok err w =
         Some (Inr (sum_list (spec_schedule (Suc k) 0)), polled u (spec_schedule (Suc k) 0) w)"
proof (cases "\<exists>i. stops srv u ok err w i")
  case True
  then obtain k where k: "stops srv u ok err w k"
    "\<forall>j<k. \<exists>r. poll srv u w j = Some r \<and> status_code r \<noteq> ok \<and> status_code r \<noteq> err"
    using first_stop by blast
  show ?thesis
  proof (cases "poll srv u w k")
    case None
    from loop_raises [OF k(2) None] have
      "check_status srv u ok err w = Some (Inl RequestException, polled u (spec_schedule (Suc k) 0) w)"
      by (simp add: check_status_def)
    with k(2) None show ?thesis by (rule raises)
  next
    case (Some r)
    with k(1) have t: "status_code r = ok \<or> status_code r = err" by (simp add: stops_def)
    from loop_returns [OF k(2) Some t, of 0 None] have
      "check_status srv u ok err w =
         Some (Inr (sum_list (spec_schedule (Suc k) 0)), polled u (spec_schedule (Suc k) 0) w)"
      by (simp add: check_status_def)
    with k(2) Some t show ?thesis by (rule returns)
  qed
next
  case False
  then have all: "\<forall>i. \<exists>r. poll srv u w i = Some r \<and> status_code r \<noteq> ok \<and> status_code r \<noteq> err"
    by (auto simp: stops_def split: option.splits)
  have "check_status srv u ok err w = None"
  proof (rule ccontr)
    assume "check_status srv u ok err w \<noteq> None"
    then obtain y where "check_status_loop srv u ok err 0 None w = Some y"
      by (auto simp: check_status_def)
    from loop_stops [OF this] False show False by blast
  qed
  then show ?thesis using all by (rule diverges)
qed

lemma check_status_returns:
  assumes "check_status srv u ok err w = Some (Inr c, w')"
  shows "\<exists>k r. c = sum_list (spec_schedule (Suc k) 0) \<and>
           w' = polled u (spec_schedule (Suc k) 0) w \<and>
           poll srv u w k = Some r \<and> (status_code r = ok \<or> status_code r = err) \<and>
           (\<forall>j<k. \<exists>r'. poll srv u w j = Some r' \<and> status_code r' \<noteq> ok \<and> status_code r' \<noteq> err)"
proof (cases rule: check_status_cases [of srv u ok err w])
  case diverges
  with assms show ?thesis by simp
next
  case raises
  with assms show ?thesis by simp
next
  case (returns k r)
  from returns(4) assms have "c = sum_list (spec_schedule (Suc k) 0)"
    "w' = polled u (spec_schedule (Suc k) 0) w" by simp_all
  with returns(1-3) show ?thesis by blast
qed

text \<open>
  Claim C3. A run of \<open>check_status\<close> never returns exactly when every poll is answered
  with a status code other than the two terminal codes; and it returns a counter exactly
  when some poll is answered with a terminal code, every poll before it having been
  answered with a code that is not terminal. The loop has no bound on its iterations.
\<close>

theorem check_status_terminates:
  "((check_status srv u ok err w = None) =
     (\<forall>i. \<exists>r. poll srv u w i = Some r \<and> status_code r \<noteq> ok \<and> status_code r \<noteq> err)) \<and>
   ((\<exists>c w'. check_status srv u ok err w = Some (Inr c, w')) =
     (\<exists>k r. poll srv u w k = Some r \<and> (status_code r = ok \<or> status_code r = err) \<and>
        (\<forall>j<k. \<exists>r'. poll srv u w j = Some r' \<and> status_code r' \<noteq> ok \<and> status_code r' \<noteq> err)))"
proof (intro conjI iffI)
  assume "check_status srv u ok err w = None"
  then show "\<forall>i. \<exists>r. poll srv u w i = Some r \<and> status_code r \<noteq> ok \<and> status_code r \<noteq> err"
    by (cases rule: check_status_cases [of srv u ok err w]) simp_all
next
  assume all: "\<forall>i. \<exists>r. poll srv u w i = Some r \<and> status_code r \<noteq> ok \<and> status_code r \<noteq> err"
  show "check_status srv u ok err w = None"
  proof (rule ccontr)
    assume "check_status srv u ok err w \<noteq> None"
    then obtain y where "check_status_loop srv u ok err 0 None w = Some y"
      by (auto simp: check_status_def)
    from loop_stops [OF this] obtain i where "stops srv u ok err w i" by blast
    with all [rule_format, of i] show False by (auto simp: stops_def)
  qed
next
  assume "\<exists>c w'. check_status srv u ok err w = Some (Inr c, w')"
  then obtain c w' where ret: "check_status srv u ok err w = Some (Inr c, w')" by blast
  from check_status_returns [OF ret]
  show "\<exists>k r. poll srv u w k = Some r \<and> (status_code r = ok \<or> status_code r = err) \<and>
        (\<forall>j<k. \<exists>r'. poll srv u w j = Some r' \<and> status_code r' \<noteq> ok \<and> status_code r' \<noteq> err)"
    by blast
next
  assume "\<exists>k r. poll srv u w k = Some r \<and> (status_code r = ok \<or> status_code r = err) \<and>
        (\<forall>j<k. \<exists>r'. poll srv u w j = Some r' \<and> status_code r' \<noteq> ok \<and> status_code r' \<noteq> err)"
  then obtain k r where k: "poll srv u w k = Some r" "status_code r = ok \<or> status_code r = err"
    "\<forall>j<k. \<exists>r'. poll srv u w j = Some r' \<and> status_code r' \<noteq> ok \<and> status_code r' \<noteq> err"
    by blast
  from loop_returns [OF k(3) k(1) k(2), of 0 None]
  show "\<exists>c w'. check_status srv u ok err w = Some (Inr c, w')"
    by (simp add: check_status_def)
qed

theorem check_status_terminates_witness:
  "check_status (mock_always 202) ''status'' 200 500 world0 = None \<and>
   (\<exists>c w'. check_status (mock_server [mock_reply 202 PyNone [], mock_reply 500 PyNone []])
      ''status'' 200 500 world0 = Some (Inr c, w'))"
proof -
  have "\<forall>i. \<exists>r. poll (mock_always 202) ''status'' world0 i = Some r \<and>
      status_code r \<noteq> 200 \<and> status_code r \<noteq> 500"
    by (simp add: poll_def mock_always_def mock_reply_def)
  with check_status_terminates [of "mock_always 202" "''status''" 200 500 world0]
  have a: "check_status (mock_always 202) ''status'' 200 500 world0 = None" by blast
  let ?srv = "mock_server [mock_reply 202 PyNone [], mock_reply 500 PyNone []]"
  have "poll ?srv ''status'' world0 1 = Some (mock_reply 500 PyNone []) \<and>
      (status_code (mock_reply 500 PyNone []) = 200 \<or> status_code (mock_reply 500 PyNone []) = 500) \<and>
      (\<forall>j<1. \<exists>r'. poll ?srv ''status'' world0 j = Some r' \<and>
          status_code r' \<noteq> 200 \<and> status_code r' \<noteq> 500)"
    by (simp add: poll_def mock_server_def mock_reply_def world0_def)
  with check_status_terminates [of ?srv "''status''" 200 500 world0]
  have "\<exists>c w'. check_status ?srv ''status'' 200 500 world0 = Some (Inr c, w')" by blast
  with a show ?thesis by blast
qed

text \<open>
  Claim C2. When \<open>check_status\<close> returns, it has slept a non-empty list of amounts, one
  per poll; each amount is the tier (1, 10 or 60 seconds) of the sum of the amounts
  before it, which is the counter at that iteration; and the value returned is the sum
  of all of them. For the answers 202, 202, 200 the poller returns 3, after sleeping
  1 second three times.
\<close>

theorem check_status_elapsed:
  "(check_status srv u ok err w = Some (Inr c, w') \<longrightarrow>
      (\<exists>ss. ss \<noteq> [] \<and> slept w' = slept w @ ss \<and> c = sum_list ss \<and>
            (\<forall>i<length ss. ss ! i = spec_tier (sum_list (take i ss))) \<and>
            sent w' = sent w @ replicate (length ss) (get_request u))) \<and>
   (\<exists>w3. check_status
            (mock_server [mock_reply 202 j b, mock_reply 202 j b, mock_reply 200 j b])
            u 200 500 world0 = Some (Inr 3, w3) \<and> slept w3 = [1, 1, 1])"
proof (intro conjI impI)
  assume ret: "check_status srv u ok err w = Some (Inr c, w')"
  from check_status_returns [OF ret]
  obtain k where k: "c = sum_list (spec_schedule (Suc k) 0)"
    "w' = polled u (spec_schedule (Suc k) 0) w"
    by blast
  let ?ss = "spec_schedule (Suc k) 0"
  have "?ss \<noteq> []" by simp
  moreover have "slept w' = slept w @ ?ss" using k(2) by (simp add: polled_def)
  moreover have "sent w' = sent w @ replicate (length ?ss) (get_request u)"
    using k(2) by (simp add: polled_def)
  moreover have "\<forall>i<length ?ss. ?ss ! i = spec_tier (sum_list (take i ?ss))"
    using spec_schedule_nth [of _ "Suc k" 0] by (simp only: length_spec_schedule) simp
  ultimately show "\<exists>ss. ss \<noteq> [] \<and> slept w' = slept w @ ss \<and> c = sum_list ss \<and>
            (\<forall>i<length ss. ss ! i = spec_tier (sum_list (take i ss))) \<and>
            sent w' = sent w @ replicate (length ss) (get_request u)"
    using k(1) by blast
next
  show "\<exists>w3. check_status
            (mock_server [mock_reply 202 j b, mock_reply 202 j b, mock_reply 200 j b])
            u 200 500 world0 = Some (Inr 3, w3) \<and> slept w3 = [1, 1, 1]"
    by (simp add: check_status_def check_status_loop.simps assign_slp_def sleep_def
        requests_get_def send_def mock_server_def mock_reply_def world0_def)
qed

theorem check_status_elapsed_witness:
  "check_status (mock_server [mock_reply 202 PyNone [], mock_reply 500 PyNone []])
     ''status'' 200 500 world0 =
     Some (Inr 2, \<lparr>sent = [get_request ''status'', get_request ''status''],
                   slept = [1, 1], fs = (\<lambda>p. None)\<rparr>) \<and>
   (\<exists>ss. ss \<noteq> [] \<and> [1, 1] = ss \<and> (2::int) = sum_list ss \<and>
         (\<forall>i<length ss. ss ! i = spec_tier (sum_list (take i ss))))"
proof -
  have run: "check_status (mock_server [mock_reply 202 PyNone [], mock_reply 500 PyNone []])
     ''status'' 200 500 world0 =
     Some (Inr 2, \<lparr>sent = [get_request ''status'', get_request ''status''],
                   slept = [1, 1], fs = (\<lambda>p. None)\<rparr>)"
    by (simp add: check_status_def check_status_loop.simps assign_slp_def sleep_def
        requests_get_def send_def mock_server_def mock_reply_def world0_def)
  from check_status_elapsed [THEN conjunct1, rule_format, OF run]
  have "\<exists>ss. ss \<noteq> [] \<and> [1, 1] = ss \<and> (2::int) = sum_list ss \<and>
         (\<forall>i<length ss. ss ! i = spec_tier (sum_list (take i ss)))"
    by (simp add: world0_def)
  with run show ?thesis by blast
qed

lemma counter_at_Suc: "counter_at (Suc n) = counter_at n + spec_tier (counter_at n)"
  by (simp add: counter_at_def assign_slp_tier split: prod.split)

lemma counter_at_closed:
  "counter_at n = (if n \<le> 10 then int n else if n \<le> 15 then 10 * (int n - 9) else 60 * (int n - 14))"
proof (induction n)
  case 0
  then show ?case by (simp add: counter_at_def)
next
  case (Suc n)
  then show ?case by (simp add: counter_at_Suc spec_tier_def)
qed

lemma sum_spec_schedule: "counter_at n + sum_list (spec_schedule m (counter_at n)) = counter_at (n + m)"
proof (induction m arbitrary: n)
  case 0
  then show ?case by simp
next
  case (Suc m)
  from Suc [of "Suc n"] show ?case by (simp add: counter_at_Suc add.assoc)
qed

lemma check_status_counter_at:
  assumes "check_status srv u ok err w = Some (Inr c, w')"
  shows "\<exists>k. c = counter_at (Suc k) \<and> length (slept w') = length (slept w) + Suc k"
proof -
  from check_status_returns [OF assms] obtain k where
    k: "c = sum_list (spec_schedule (Suc k) 0)" "w' = polled u (spec_schedule (Suc k) 0) w" by blast
  have "counter_at 0 = 0" by (simp add: counter_at_def)
  with sum_spec_schedule [of 0 "Suc k"] k(1) have "c = counter_at (Suc k)" by simp
  moreover from k(2) have "length (slept w') = length (slept w) + Suc k"
    by (simp add: polled_def length_spec_schedule del: spec_schedule.simps)
  ultimately show ?thesis by blast
qed


section \<open>Where the counter crosses the tiers\<close>

text \<open>
  Claim C8, as the code has it. The pass of the loop that takes the counter into the
  second tier (from below 10 to 10 or more) steps it from 9 to 10, and the pass that
  takes it into the third tier (from below 60 to 60 or more) steps it from 50 to 60:
  in the second tier the counter grows by 10, so it never holds 59. Every run that
  returns has gone through these values: after \<open>k + 1\<close> sleeps it returns the counter of
  pass \<open>k + 1\<close>.
\<close>

theorem tier_crossings:
  "(counter_at n < 10 \<and> 10 \<le> counter_at (Suc n) \<longrightarrow> counter_at n = 9 \<and> counter_at (Suc n) = 10) \<and>
   (counter_at n < 60 \<and> 60 \<le> counter_at (Suc n) \<longrightarrow> counter_at n = 50 \<and> counter_at (Suc n) = 60) \<and>
   (check_status srv u ok err w = Some (Inr c, w') \<longrightarrow>
      (\<exists>k. c = counter_at (Suc k) \<and> length (slept w') = length (slept w) + Suc k))"
  using check_status_counter_at [of srv u ok err w c w']
  by (simp add: counter_at_closed)

theorem tier_crossings_witness:
  "counter_at 9 < 10 \<and> 10 \<le> counter_at (Suc 9) \<and> counter_at 9 = 9 \<and> counter_at (Suc 9) = 10 \<and>
   counter_at 14 < 60 \<and> 60 \<le> counter_at (Suc 14) \<and> counter_at 14 = 50 \<and> counter_at (Suc 14) = 60 \<and>
   check_status (mock_server [mock_reply 202 PyNone [], mock_reply 500 PyNone []])
     ''status'' 200 500 world0 =
     Some (Inr 2, \<lparr>sent = [get_request ''status'', get_request ''status''],
                   slept = [1, 1], fs = (\<lambda>p. None)\<rparr>) \<and>
   (\<exists>k. (2::int) = counter_at (Suc k) \<and> length [1::int, 1] = length (slept world0) + Suc k)"
proof -
  have a: "counter_at 9 < 10 \<and> 10 \<le> counter_at (Suc 9)" by code_simp
  have b: "counter_at 14 < 60 \<and> 60 \<le> counter_at (Suc 14)" by code_simp
  have run: "check_status (mock_server [mock_reply 202 PyNone [], mock_reply 500 PyNone []])
     ''status'' 200 500 world0 =
     Some (Inr 2, \<lparr>sent = [get_request ''status'', get_request ''status''],
                   slept = [1, 1], fs = (\<lambda>p. None)\<rparr>)"
    by (simp add: check_status_def check_status_loop.simps assign_slp_def sleep_def
        requests_get_def send_def mock_server_def mock_reply_def world0_def)
  from tier_crossings [where n = 9, THEN conjunct1] a
  have a': "counter_at 9 = 9 \<and> counter_at (Suc 9) = 10" by blast
  from tier_crossings [where n = 14, THEN conjunct2, THEN conjunct1] b
  have b': "counter_at 14 = 50 \<and> counter_at (Suc 14) = 60" by blast
  from tier_crossings [where n = 0, THEN conjunct2, THEN conjunct2, rule_format, OF run]
  have c': "\<exists>k. (2::int) = counter_at (Suc k) \<and> length [1::int, 1] = length (slept world0) + Suc k"
    by simp
  from a b a' b' run c' show ?thesis by blast
qed

text \<open>
  The claim as the specification words it, with a step from 59 to 60, fails at the
  fifteenth pass, which is the one that enters the third tier.
\<close>

theorem tier_crossing_59_counterexample:
  "\<not> (counter_at 14 < 60 \<and> 60 \<le> counter_at (Suc 14) \<longrightarrow>
        counter_at 14 = 59 \<and> counter_at (Suc 14) = 60)"
  by code_simp


section \<open>The job launcher\<close>

subsection \<open>The token\<close>

lemma post_data_answer:
  assumes "srv (length (sent w)) (post_request u d f) = Some r" and "body_json r = Some j"
  shows "post_data srv u d f w =
    (Inr \<lparr>status = status_code r, json = j\<rparr>, w\<lparr>sent := sent w @ [post_request u d f]\<rparr>)"
  using assms by (simp add: post_data_def send_def to_response_def)

lemma sent_post_data: "sent (snd (post_data srv u d f w)) = sent w @ [post_request u d f]"
  by (simp add: post_data_def send_def split: option.split)

lemma sent_launch_job:
  "fill_request w kwargs ([], []) = Inr (data, files) \<Longrightarrow>
     sent (snd (launch_job srv u kwargs w)) = sent w @ [post_request u data files]"
  using sent_post_data [of srv u data files w]
  by (auto simp: launch_job_def split: prod.splits sum.splits)

text \<open>
  Claim C1. When the arguments are packed without an exception and the server answers
  the POST with a body that parses as JSON, \<open>launch_job\<close> returns what subscripting the
  body with \<open>token\<close> gives if the status is 303, the token field when the body is an
  object that has one, and returns \<open>None\<close> for every other status.
\<close>

theorem launch_job_token:
  assumes "fill_request w kwargs ([], []) = Inr (data, files)"
    and "srv (length (sent w)) (post_request u data files) = Some r"
    and "body_json r = Some j"
  shows "launch_job srv u kwargs w =
           (if status_code r = 303 then py_getitem j ''token'' else Inr PyNone,
            w\<lparr>sent := sent w @ [post_request u data files]\<rparr>) \<and>
         (status_code r = 303 \<and> j = PyDict kvs \<and> map_of kvs ''token'' = Some t \<longrightarrow>
            fst (launch_job srv u kwargs w) = Inr t)"
  using assms(1) post_data_answer [of srv w u data files r j, OF assms(2,3)]
  by (simp add: launch_job_def)

theorem launch_job_token_witness:
  "fst (launch_job (mock_server [mock_reply 303 (PyDict [(''token'', PyStr ''abc'')]) []])
          ''launch'' [(''output_pdb'', PyStr ''o.pdb'')] world0) = Inr (PyStr ''abc'') \<and>
   fst (launch_job (mock_server [mock_reply 404 (PyDict [(''token'', PyStr ''abc'')]) []])
          ''launch'' [(''output_pdb'', PyStr ''o.pdb'')] world0) = Inr PyNone"
proof -
  let ?kw = "[(''output_pdb'', PyStr ''o.pdb'')]"
  let ?j = "PyDict [(''token'', PyStr ''abc'')]"
  have f: "fill_request world0 ?kw ([], []) = Inr ([(''output_pdb'', ''o.pdb'')], [])"
    by (simp add: startswith_def)
  have s1: "mock_server [mock_reply 303 ?j []] (length (sent world0))
      (post_request ''launch'' [(''output_pdb'', ''o.pdb'')] []) = Some (mock_reply 303 ?j [])"
    and s2: "mock_server [mock_reply 404 ?j []] (length (sent world0))
      (post_request ''launch'' [(''output_pdb'', ''o.pdb'')] []) = Some (mock_reply 404 ?j [])"
    by (simp_all add: mock_server_def world0_def)
  have b1: "body_json (mock_reply 303 ?j []) = Some ?j"
    and b2: "body_json (mock_reply 404 ?j []) = Some ?j"
    by (simp_all add: mock_reply_def)
  from launch_job_token [where srv = "mock_server [mock_reply 303 ?j []]" and w = world0
      and kvs = "[(''token'', PyStr ''abc'')]" and t = "PyStr ''abc''", OF f s1 b1]
  have "fst (launch_job (mock_server [mock_reply 303 ?j []]) ''launch'' ?kw world0) = Inr (PyStr ''abc'')"
    by (simp add: mock_reply_def)
  moreover from launch_job_token [where srv = "mock_server [mock_reply 404 ?j []]" and w = world0,
      OF f s2 b2]
  have "fst (launch_job (mock_server [mock_reply 404 ?j []]) ''launch'' ?kw world0) = Inr PyNone"
    by (simp add: mock_reply_def)
  ultimately show ?thesis by simp
qed

subsection \<open>How an argument is classified\<close>

lemma input_not_config: "startswith key ''input'' \<Longrightarrow> key \<noteq> ''config''"
  by (auto simp: startswith_def)
















subsection \<open>Configuration objects\<close>



lemma encode_config_example:
  "encode_config (PyDict [(''step'', PyStr ''md''), (''nsteps'', PyInt 5000), (''gpu'', PyBool False)]) =
     [CHR ''{'', CHR 0x22] @ ''step'' @ [CHR 0x22] @ '': '' @ [CHR 0x22] @ ''md'' @ [CHR 0x22] @
     '', '' @ [CHR 0x22] @ ''nsteps'' @ [CHR 0x22] @ '': 5000, '' @
     [CHR 0x22] @ ''gpu'' @ [CHR 0x22] @ '': false}''"
  by (simp add: encode_config_def quote_def escape_char_def show_int_def show_nat.simps)

lemma distinct_filter_le1:
  "distinct (map fst xs) \<Longrightarrow> length (filter (\<lambda>e. fst e = k) xs) \<le> 1"
proof (induction xs)
  case Nil
  then show ?case by simp
next
  case (Cons x xs)
  show ?case
  proof (cases "fst x = k")
    case True
    with Cons.prems have "k \<notin> fst ` set xs" by simp
    then have "filter (\<lambda>e. fst e = k) xs = []" by (auto simp: filter_empty_conv)
    with True show ?thesis by simp
  next
    case False
    with Cons show ?thesis by simp
  qed
qed

lemma launch_arg_distinct:
  "launch_arg w (k, v) (d, f) = Inr (d', f') \<Longrightarrow> distinct (map fst f) \<Longrightarrow> distinct (map fst f')"
  by (cases v) (auto simp: distinct_update split: if_splits sum.splits)

lemma fill_distinct:
  "fill_request w kwargs (d, f) = Inr (d', f') \<Longrightarrow> distinct (map fst f) \<Longrightarrow>
     distinct (map fst f')"
proof (induction kwargs arbitrary: d f)
  case Nil
  then show ?case by simp
next
  case (Cons kv kwargs)
  obtain k v where kv: "kv = (k, v)" by (cases kv)
  from Cons.prems(1) obtain d1 f1 where step: "launch_arg w (k, v) (d, f) = Inr (d1, f1)"
    and rest: "fill_request w kwargs (d1, f1) = Inr (d', f')"
    by (auto simp: kv split: sum.splits)
  from launch_arg_distinct [OF step Cons.prems(2)] Cons.IH [OF rest] show ?case by simp
qed

lemma fill_append:
  "fill_request w (xs @ ys) acc =
     (case fill_request w xs acc of Inl e \<Rightarrow> Inl e | Inr acc' \<Rightarrow> fill_request w ys acc')"
  by (induction xs arbitrary: acc) (auto split: sum.splits)

lemma launch_arg_config_kept:
  "launch_arg w (k, v) (d, f) = Inr (d', f') \<Longrightarrow> \<forall>x. v \<noteq> PyDict x \<Longrightarrow>
     \<not> (k = ''config'' \<and> (\<exists>p. v = PyStr p \<and> is_file w p)) \<Longrightarrow>
     map_of f' ''config'' = map_of f ''config''"
  by (cases v) (auto simp: update_conv' dest: input_not_config split: if_splits sum.splits)

lemma fill_config_kept:
  "fill_request w post (d, f) = Inr (d', f') \<Longrightarrow>
     \<forall>kv\<in>set post. (\<forall>x. snd kv \<noteq> PyDict x) \<and>
        \<not> (fst kv = ''config'' \<and> (\<exists>p. snd kv = PyStr p \<and> is_file w p)) \<Longrightarrow>
     map_of f' ''config'' = map_of f ''config''"
proof (induction post arbitrary: d f)
  case Nil
  then show ?case by simp
next
  case (Cons kv post)
  obtain k v where kv: "kv = (k, v)" by (cases kv)
  from Cons.prems(1) obtain d1 f1 where step: "launch_arg w (k, v) (d, f) = Inr (d1, f1)"
    and rest: "fill_request w post (d1, f1) = Inr (d', f')"
    by (auto simp: kv split: sum.splits)
  from Cons.prems(2) have a: "\<forall>x. v \<noteq> PyDict x"
    and b: "\<not> (k = ''config'' \<and> (\<exists>p. v = PyStr p \<and> is_file w p))"
    and c: "\<forall>kv\<in>set post. (\<forall>x. snd kv \<noteq> PyDict x) \<and>
        \<not> (fst kv = ''config'' \<and> (\<exists>p. snd kv = PyStr p \<and> is_file w p))"
    by (simp_all add: kv)
  from launch_arg_config_kept [OF step a b] Cons.IH [OF rest c] show ?case by simp
qed

text \<open>
  Claim C10, as the code has it. The attachments built by the launcher hold at most
  one entry under \<open>config\<close>. Every dictionary argument is stored under that key, so
  among several dictionaries the earlier ones are overwritten, and the entry is the JSON
  of the last dictionary provided that no later string argument named \<open>config\<close> names an
  existing file.
\<close>

theorem config_entry:
  assumes "fill_request w kwargs ([], []) = Inr (data, files)"
  shows "length (filter (\<lambda>e. fst e = ''config'') files) \<le> 1 \<and>
         (kwargs = pre @ (key, PyDict d) # post \<and>
          (\<forall>kv\<in>set post. (\<forall>x. snd kv \<noteq> PyDict x) \<and>
              \<not> (fst kv = ''config'' \<and> (\<exists>p. snd kv = PyStr p \<and> is_file w p))) \<longrightarrow>
            map_of files ''config'' = Some (''prop.json'', encode_config (PyDict d)))"
proof (intro conjI impI)
  from fill_distinct [OF assms] have "distinct (map fst files)" by simp
  then show "length (filter (\<lambda>e. fst e = ''config'') files) \<le> 1"
    by (rule distinct_filter_le1)
next
  assume a: "kwargs = pre @ (key, PyDict d) # post \<and>
          (\<forall>kv\<in>set post. (\<forall>x. snd kv \<noteq> PyDict x) \<and>
              \<not> (fst kv = ''config'' \<and> (\<exists>p. snd kv = PyStr p \<and> is_file w p)))"
  with assms obtain d1 f1 where pre: "fill_request w pre ([], []) = Inr (d1, f1)"
    and rest: "fill_request w ((key, PyDict d) # post) (d1, f1) = Inr (data, files)"
    by (auto simp: fill_append split: sum.splits)
  let ?f2 = "AList.update ''config'' (''prop.json'', encode_config (PyDict d)) f1"
  from rest have post: "fill_request w post (d1, ?f2) = Inr (data, files)" by simp
  from fill_config_kept [OF post] a have "map_of files ''config'' = map_of ?f2 ''config''"
    by blast
  then show "map_of files ''config'' = Some (''prop.json'', encode_config (PyDict d))"
    by (simp add: update_conv')
qed

theorem config_entry_witness:
  "fill_request world0
     [(''first'', PyDict [(''x'', PyInt 1)]), (''second'', PyDict [(''x'', PyInt 2)]),
      (''output_top'', PyStr ''o.zip'')] ([], []) =
     Inr ([(''output_top'', ''o.zip'')],
          [(''config'', ''prop.json'', encode_config (PyDict [(''x'', PyInt 2)]))]) \<and>
   length (filter (\<lambda>e. fst e = ''config'')
     [(''config'', ''prop.json'', encode_config (PyDict [(''x'', PyInt 2)]))]) \<le> 1 \<and>
   map_of [(''config'', ''prop.json'', encode_config (PyDict [(''x'', PyInt 2)]))] ''config'' =
     Some (''prop.json'', encode_config (PyDict [(''x'', PyInt 2)]))"
proof -
  let ?kw = "[(''first'', PyDict [(''x'', PyInt 1)]), (''second'', PyDict [(''x'', PyInt 2)]),
      (''output_top'', PyStr ''o.zip'')]"
  let ?f = "[(''config'', ''prop.json'', encode_config (PyDict [(''x'', PyInt 2)]))]"
  have fill: "fill_request world0 ?kw ([], []) = Inr ([(''output_top'', ''o.zip'')], ?f)"
    by (simp add: startswith_def)
  have split: "?kw = [(''first'', PyDict [(''x'', PyInt 1)])] @
      (''second'', PyDict [(''x'', PyInt 2)]) # [(''output_top'', PyStr ''o.zip'')]"
    by simp
  have post: "\<forall>kv\<in>set [(''output_top'', PyStr ''o.zip'')]. (\<forall>x. snd kv \<noteq> PyDict x) \<and>
      \<not> (fst kv = ''config'' \<and> (\<exists>p. snd kv = PyStr p \<and> is_file world0 p))"
    by simp
  from config_entry [OF fill, of "[(''first'', PyDict [(''x'', PyInt 1)])]" "''second''"
      "[(''x'', PyInt 2)]" "[(''output_top'', PyStr ''o.zip'')]"] split post
  have "length (filter (\<lambda>e. fst e = ''config'') ?f) \<le> 1 \<and>
      map_of ?f ''config'' = Some (''prop.json'', encode_config (PyDict [(''x'', PyInt 2)]))"
    by blast
  with fill show ?thesis by blast
qed

text \<open>
  The claim without the proviso fails: a string argument named \<open>config\<close> that follows
  the dictionaries and names an existing file replaces the entry, and no dictionary is
  uploaded.
\<close>

theorem config_entry_counterexample:
  "fill_request (world_with [(''conf.json'', ''{}'')])
     [(''first'', PyDict [(''x'', PyInt 1)]), (''second'', PyDict [(''x'', PyInt 2)]),
      (''config'', PyStr ''conf.json'')] ([], []) =
     Inr ([], [(''config'', ''conf.json'', ''{}'')]) \<and>
   map req_files (sent (snd (launch_job (mock_always 303) ''launch''
     [(''first'', PyDict [(''x'', PyInt 1)]), (''second'', PyDict [(''x'', PyInt 2)]),
      (''config'', PyStr ''conf.json'')] (world_with [(''conf.json'', ''{}'')])))) =
     [[(''config'', ''conf.json'', ''{}'')]] \<and>
   map_of [(''config'', ''conf.json'', ''{}'')] ''config'' \<noteq>
     Some (''prop.json'', encode_config (PyDict [(''x'', PyInt 2)]))"
proof -
  let ?w = "world_with [(''conf.json'', ''{}'')]"
  let ?kw = "[(''first'', PyDict [(''x'', PyInt 1)]), (''second'', PyDict [(''x'', PyInt 2)]),
      (''config'', PyStr ''conf.json'')]"
  have fill: "fill_request ?w ?kw ([], []) = Inr ([], [(''config'', ''conf.json'', ''{}'')])"
    by (simp add: startswith_def is_file_def open_rb_def world_with_def)
  from sent_launch_job [OF fill, of "mock_always 303" "''launch''"]
  have "map req_files (sent (snd (launch_job (mock_always 303) ''launch'' ?kw ?w))) =
     [[(''config'', ''conf.json'', ''{}'')]]"
    by (simp add: world_with_def post_request_def)
  with fill show ?thesis by simp
qed

section \<open>Reading the output descriptors\<close>

lemma collect_items_ok:
  assumes "\<forall>d\<in>set ds. \<exists>i n. py_getitem d ''id'' = Inr i \<and> py_getitem d ''name'' = Inr n"
  shows "\<exists>items. collect_items ds = Inr items \<and> length items = length ds \<and>
           (\<forall>k<length ds. \<exists>i n. py_getitem (ds ! k) ''id'' = Inr i \<and>
               py_getitem (ds ! k) ''name'' = Inr n \<and>
               items ! k = PyDict [(''id'', i), (''name'', n)])"
  using assms
proof (induction ds)
  case Nil
  then show ?case by simp
next
  case (Cons d ds)
  from Cons.prems obtain i n where d: "py_getitem d ''id'' = Inr i" "py_getitem d ''name'' = Inr n"
    by auto
  from Cons obtain items where items: "collect_items ds = Inr items" "length items = length ds"
    "\<forall>k<length ds. \<exists>i n. py_getitem (ds ! k) ''id'' = Inr i \<and>
               py_getitem (ds ! k) ''name'' = Inr n \<and>
               items ! k = PyDict [(''id'', i), (''name'', n)]"
    by auto
  let ?items = "PyDict [(''id'', i), (''name'', n)] # items"
  have "collect_items (d # ds) = Inr ?items" using d items(1) by simp
  moreover have "length ?items = length (d # ds)" using items(2) by simp
  moreover have "\<exists>i n. py_getitem ((d # ds) ! k) ''id'' = Inr i \<and>
               py_getitem ((d # ds) ! k) ''name'' = Inr n \<and>
               ?items ! k = PyDict [(''id'', i), (''name'', n)]" if "k < length (d # ds)" for k
  proof (cases k)
    case 0
    with d show ?thesis by simp
  next
    case (Suc k')
    with that items(3) show ?thesis by simp
  qed
  ultimately show ?case by blast
qed

lemma get_data_answer:
  assumes "srv (length (sent w)) (get_request u) = Some r" and "body_json r = Some j"
  shows "get_data srv u w =
    (Inr \<lparr>status = status_code r, json = j\<rparr>, w\<lparr>sent := sent w @ [get_request u]\<rparr>)"
  using assms by (simp add: get_data_def requests_get_def send_def to_response_def)

text \<open>
  Claim C6. After a poll that ended on a terminal code, when the follow-up GET is
  answered with a body that parses as JSON: for a status other than 200 \<open>check_job\<close>
  returns \<open>None\<close>; for status 200 and a body whose \<open>output_files\<close> is a list of objects
  that each have an \<open>id\<close> and a \<open>name\<close>, it returns the list, of the same length and
  in the same order, of the objects holding exactly that \<open>id\<close> and that \<open>name\<close>.
\<close>

theorem check_job_out_files:
  assumes "check_status srv (apiURL @ ''retrieve/status/'' @ t) 200 500 w = Some (Inr c, w1)"
    and "srv (length (sent w1)) (get_request (apiURL @ ''retrieve/status/'' @ t)) = Some r"
    and "body_json r = Some j"
  shows "(status_code r \<noteq> 200 \<longrightarrow>
            check_job srv (PyStr t) apiURL w =
              Some (Inr PyNone,
                    w1\<lparr>sent := sent w1 @ [get_request (apiURL @ ''retrieve/status/'' @ t)]\<rparr>)) \<and>
         (status_code r = 200 \<and> py_getitem j ''output_files'' = Inr (PyList ds) \<and>
          (\<forall>d\<in>set ds. \<exists>i n. py_getitem d ''id'' = Inr i \<and> py_getitem d ''name'' = Inr n) \<longrightarrow>
            (\<exists>items.
               check_job srv (PyStr t) apiURL w =
                 Some (Inr (PyList items),
                       w1\<lparr>sent := sent w1 @ [get_request (apiURL @ ''retrieve/status/'' @ t)]\<rparr>) \<and>
               length items = length ds \<and>
               (\<forall>k<length ds. \<exists>i n. py_getitem (ds ! k) ''id'' = Inr i \<and>
                   py_getitem (ds ! k) ''name'' = Inr n \<and>
                   items ! k = PyDict [(''id'', i), (''name'', n)])))"
proof (intro conjI impI)
  let ?u = "apiURL @ ''retrieve/status/'' @ t"
  note g = get_data_answer [of srv w1 ?u r j, OF assms(2,3)]
  {
    assume "status_code r \<noteq> 200"
    with assms(1) g show "check_job srv (PyStr t) apiURL w =
              Some (Inr PyNone, w1\<lparr>sent := sent w1 @ [get_request ?u]\<rparr>)"
      by (simp add: check_job_def)
  next
    assume a: "status_code r = 200 \<and> py_getitem j ''output_files'' = Inr (PyList ds) \<and>
          (\<forall>d\<in>set ds. \<exists>i n. py_getitem d ''id'' = Inr i \<and> py_getitem d ''name'' = Inr n)"
    then obtain items where items: "collect_items ds = Inr items" "length items = length ds"
      "\<forall>k<length ds. \<exists>i n. py_getitem (ds ! k) ''id'' = Inr i \<and>
                   py_getitem (ds ! k) ''name'' = Inr n \<and>
                   items ! k = PyDict [(''id'', i), (''name'', n)]"
      using collect_items_ok [of ds] by blast
    from a items(1) have "out_files_of j = Inr items" by (simp add: out_files_of_def)
    with a assms(1) g have "check_job srv (PyStr t) apiURL w =
                 Some (Inr (PyList items), w1\<lparr>sent := sent w1 @ [get_request ?u]\<rparr>)"
      by (simp add: check_job_def)
    with items(2,3) show "\<exists>items.
               check_job srv (PyStr t) apiURL w =
                 Some (Inr (PyList items), w1\<lparr>sent := sent w1 @ [get_request ?u]\<rparr>) \<and>
               length items = length ds \<and>
               (\<forall>k<length ds. \<exists>i n. py_getitem (ds ! k) ''id'' = Inr i \<and>
                   py_getitem (ds ! k) ''name'' = Inr n \<and>
                   items ! k = PyDict [(''id'', i), (''name'', n)])"
      by blast
  }
qed

theorem check_job_out_files_witness:
  "(\<exists>items.
      check_job
        (mock_server
          [mock_reply 202 PyNone [], mock_reply 200 PyNone [],
           mock_reply 200
             (PyDict [(''output_files'',
                PyList [PyDict [(''id'', PyStr ''i1''), (''name'', PyStr ''a.pdb''), (''size'', PyInt 7)],
                        PyDict [(''name'', PyStr ''b.top''), (''id'', PyStr ''i2'')]])]) []])
        (PyStr ''tok'') ''api/'' world0 =
        Some (Inr (PyList items),
              \<lparr>sent = [get_request ''api/retrieve/status/tok'', get_request ''api/retrieve/status/tok'',
                       get_request ''api/retrieve/status/tok''],
                 slept = [1, 1], fs = (\<lambda>p. None)\<rparr>) \<and>
      length items = 2 \<and>
      items ! 0 = PyDict [(''id'', PyStr ''i1''), (''name'', PyStr ''a.pdb'')] \<and>
      items ! 1 = PyDict [(''id'', PyStr ''i2''), (''name'', PyStr ''b.top'')]) \<and>
   check_job
     (mock_server [mock_reply 500 PyNone [], mock_reply 500 (PyDict []) []])
     (PyStr ''tok'') ''api/'' world0 =
     Some (Inr PyNone,
           \<lparr>sent = [get_request ''api/retrieve/status/tok'', get_request ''api/retrieve/status/tok''],
              slept = [1], fs = (\<lambda>p. None)\<rparr>)"
proof -
  let ?ds = "[PyDict [(''id'', PyStr ''i1''), (''name'', PyStr ''a.pdb''), (''size'', PyInt 7)],
              PyDict [(''name'', PyStr ''b.top''), (''id'', PyStr ''i2'')]]"
  let ?j = "PyDict [(''output_files'', PyList ?ds)]"
  let ?A = "mock_server [mock_reply 202 PyNone [], mock_reply 200 PyNone [], mock_reply 200 ?j []]"
  let ?B = "mock_server [mock_reply 500 PyNone [], mock_reply 500 (PyDict []) []]"
  let ?g = "get_request ''api/retrieve/status/tok''"
  let ?wA = "\<lparr>sent = [?g, ?g], slept = [1, 1], fs = (\<lambda>p. None)\<rparr>"
  let ?wB = "\<lparr>sent = [?g], slept = [1], fs = (\<lambda>p. None)\<rparr>"
  have runA: "check_status ?A (''api/'' @ ''retrieve/status/'' @ ''tok'') 200 500 world0 =
      Some (Inr 2, ?wA)"
    by (simp add: check_status_def check_status_loop.simps assign_slp_def sleep_def
        requests_get_def send_def mock_server_def mock_reply_def world0_def)
  have runB: "check_status ?B (''api/'' @ ''retrieve/status/'' @ ''tok'') 200 500 world0 =
      Some (Inr 1, ?wB)"
    by (simp add: check_status_def check_status_loop.simps assign_slp_def sleep_def
        requests_get_def send_def mock_server_def mock_reply_def world0_def)
  have srvA: "?A (length (sent ?wA)) (get_request (''api/'' @ ''retrieve/status/'' @ ''tok'')) =
      Some (mock_reply 200 ?j [])"
    and srvB: "?B (length (sent ?wB)) (get_request (''api/'' @ ''retrieve/status/'' @ ''tok'')) =
      Some (mock_reply 500 (PyDict []) [])"
    by (simp_all add: mock_server_def)
  have bodyA: "body_json (mock_reply 200 ?j []) = Some ?j"
    and bodyB: "body_json (mock_reply 500 (PyDict []) []) = Some (PyDict [])"
    by (simp_all add: mock_reply_def)
  have hyp: "status_code (mock_reply 200 ?j []) = 200 \<and>
      py_getitem ?j ''output_files'' = Inr (PyList ?ds) \<and>
      (\<forall>d\<in>set ?ds. \<exists>i n. py_getitem d ''id'' = Inr i \<and> py_getitem d ''name'' = Inr n)"
    by (simp add: mock_reply_def)
  from check_job_out_files [where srv = ?A and ds = ?ds, OF runA srvA bodyA] hyp
  obtain items where items:
    "check_job ?A (PyStr ''tok'') ''api/'' world0 =
       Some (Inr (PyList items), ?wA\<lparr>sent := sent ?wA @ [get_request (''api/'' @ ''retrieve/status/'' @ ''tok'')]\<rparr>)"
    "length items = length ?ds"
    "\<forall>k<length ?ds. \<exists>i n. py_getitem (?ds ! k) ''id'' = Inr i \<and>
        py_getitem (?ds ! k) ''name'' = Inr n \<and> items ! k = PyDict [(''id'', i), (''name'', n)]"
    by blast
  from items(3) [rule_format, of 0] items(3) [rule_format, of 1]
  have "items ! 0 = PyDict [(''id'', PyStr ''i1''), (''name'', PyStr ''a.pdb'')]"
    "items ! 1 = PyDict [(''id'', PyStr ''i2''), (''name'', PyStr ''b.top'')]"
    by simp_all
  with items(1,2) have A: "\<exists>items.
      check_job ?A (PyStr ''tok'') ''api/'' world0 =
        Some (Inr (PyList items), \<lparr>sent = [?g, ?g, ?g], slept = [1, 1], fs = (\<lambda>p. None)\<rparr>) \<and>
      length items = 2 \<and>
      items ! 0 = PyDict [(''id'', PyStr ''i1''), (''name'', PyStr ''a.pdb'')] \<and>
      items ! 1 = PyDict [(''id'', PyStr ''i2''), (''name'', PyStr ''b.top'')]"
    by simp
  from check_job_out_files [where srv = ?B, OF runB srvB bodyB]
  have B: "check_job ?B (PyStr ''tok'') ''api/'' world0 =
     Some (Inr PyNone, \<lparr>sent = [?g, ?g], slept = [1], fs = (\<lambda>p. None)\<rparr>)"
    by (simp add: mock_reply_def)
  from A B show ?thesis by blast
qed

section \<open>The result retriever\<close>





lemma download_all_result:
  "(\<exists>e. fst (download_all srv apiURL xs w) = Inl e) \<or> fst (download_all srv apiURL xs w) = Inr PyNone"
proof (induction xs arbitrary: w)
  case Nil
  then show ?case by simp
next
  case (Cons outf rest)
  show ?case
    using Cons.IH
    by (auto split: sum.splits pyval.splits prod.splits)
qed

text \<open>
  Claim C9. For a list of descriptors that is empty, or any other value that \<open>not\<close>
  takes for false, \<open>retrieve_data\<close> returns the string \<open>No files provided\<close> and leaves
  the world as it was: no request is sent. For any other value it raises or returns
  \<open>None\<close>.
\<close>

theorem retrieve_data_no_files:
  "(\<not> truthy out_files \<longrightarrow>
      retrieve_data srv out_files apiURL w = (Inr (PyStr ''No files provided''), w)) \<and>
   (truthy out_files \<longrightarrow>
      (\<exists>e. fst (retrieve_data srv out_files apiURL w) = Inl e) \<or>
      fst (retrieve_data srv out_files apiURL w) = Inr PyNone)"
  using download_all_result [of srv apiURL _ w]
  by (auto simp: retrieve_data_def split: sum.splits)

theorem retrieve_data_no_files_witness:
  "\<not> truthy (PyList []) \<and>
   retrieve_data (mock_always 200) (PyList []) ''api/'' world0 =
     (Inr (PyStr ''No files provided''), world0) \<and>
   \<not> truthy PyNone \<and>
   retrieve_data (mock_always 200) PyNone ''api/'' world0 =
     (Inr (PyStr ''No files provided''), world0) \<and>
   truthy (PyList [descriptor (''1'', ''a.txt'')]) \<and>
   fst (retrieve_data (mock_always 200) (PyList [descriptor (''1'', ''a.txt'')]) ''api/'' world0) =
     Inr PyNone"
proof -
  have a: "\<not> truthy (PyList [])" and b: "\<not> truthy PyNone"
    and c: "truthy (PyList [descriptor (''1'', ''a.txt'')])" by simp_all
  have d: "fst (retrieve_data (mock_always 200) (PyList [descriptor (''1'', ''a.txt'')]) ''api/'' world0) =
     Inr PyNone"
    by (simp add: retrieve_data_def descriptor_def get_file_def requests_get_def send_def
        mock_always_def mock_reply_def write_file_def world0_def)
  from retrieve_data_no_files [of "PyList []" "mock_always 200" "''api/''" world0]
    retrieve_data_no_files [of PyNone "mock_always 200" "''api/''" world0]
    retrieve_data_no_files [of "PyList [descriptor (''1'', ''a.txt'')]" "mock_always 200" "''api/''" world0]
    a b c d
  show ?thesis by simp
qed

end
